theory Spec2Isabelle
  imports Main
begin

section \<open>The Warbler models (models.py)\<close>

text \<open>
  The module declares five mapped classes over five tables. A mapped object is a
  record of its column attributes; an attribute that Python leaves \<open>None\<close> until the
  row is flushed (a generated primary key, a column with a default) or that the schema
  lets be NULL is an \<open>option\<close>. The columns declared \<open>nullable=False\<close> without a
  default (email, username, password, text, the foreign keys) are plain values.
  A \<open>datetime\<close> is a count of microseconds.
\<close>

type_synonym datetime = nat

subsection \<open>Tables\<close>

text \<open>\<open>class FollowersFollowee\<close>, table \<open>follows\<close>: both columns are the primary key.\<close>

record FollowersFollowee =
  followee_id :: int
  follower_id :: int

text \<open>\<open>class Like\<close>, table \<open>likes\<close>: both columns are the primary key.\<close>

record Like =
  Like_user_id :: int
  Like_message_id :: int

text \<open>\<open>class User\<close>, table \<open>users\<close>.\<close>

record User =
  User_id :: "int option"
  User_email :: string
  User_username :: string
  User_image_url :: "string option"
  User_header_image_url :: "string option"
  User_bio :: "string option"
  User_location :: "string option"
  User_password :: string

text \<open>\<open>class Message\<close>, table \<open>messages\<close>.\<close>

record Message =
  Message_id :: "int option"
  Message_text :: string
  Message_timestamp :: "datetime option"
  Message_user_id :: int

text \<open>\<open>class Comment\<close>, table \<open>comments\<close>.\<close>

record Comment =
  Comment_id :: "int option"
  Comment_text :: string
  Comment_timestamp :: "datetime option"
  Comment_user_id :: int
  Comment_message_id :: int

text \<open>The database: the rows of each table, in the order they were inserted.\<close>

record db =
  users :: "User list"
  messages :: "Message list"
  comments :: "Comment list"
  likes :: "Like list"
  follows :: "FollowersFollowee list"

subsection \<open>Relationships\<close>

text \<open>
  \<open>User.followers\<close> is a many-to-many relationship through \<open>follows\<close>. Its
  \<open>primaryjoin\<close> ties the parent (\<open>self\<close>) to the association row by
  \<open>follower_id == id\<close>, and its \<open>secondaryjoin\<close> ties the row to the related user
  by \<open>followee_id == id\<close>: the related users are those of the pairs of an association
  row and a user row that satisfy both. The ORM loads each related object once, however
  many rows relate it, so the loaded collection has no duplicates (\<open>remdups\<close>; the
  order of the rows is the engine's).
\<close>

definition User_followers :: "db \<Rightarrow> User \<Rightarrow> User list" where
  "User_followers d self =
     remdups [user. r \<leftarrow> follows d, Some (follower_id r) = User_id self,
                    user \<leftarrow> users d, User_id user = Some (followee_id r)]"

text \<open>
  \<open>backref="following"\<close> is the same relationship read from the other end: the two
  join conditions change places.
\<close>

definition User_following :: "db \<Rightarrow> User \<Rightarrow> User list" where
  "User_following d self =
     remdups [user. r \<leftarrow> follows d, Some (followee_id r) = User_id self,
                    user \<leftarrow> users d, User_id user = Some (follower_id r)]"

text \<open>\<open>Message.likes\<close>: the Like rows whose foreign key \<open>message_id\<close> is this message.\<close>

definition Message_likes :: "db \<Rightarrow> Message \<Rightarrow> Like list" where
  "Message_likes d self = [like \<leftarrow> likes d. Some (Like_message_id like) = Message_id self]"

text \<open>
  \<open>Message.user\<close> and \<open>Comment.user\<close> (the backrefs of \<open>User.messages\<close> and
  \<open>User.comments\<close>) are loaded for an object that is a stored row: the user row its
  foreign key \<open>user_id\<close> points to. For an object that is not stored (built but not
  flushed) nothing is loaded and the attribute is \<open>None\<close>, as it is when no user row
  has that id.
\<close>

definition Message_user :: "db \<Rightarrow> Message \<Rightarrow> User option" where
  "Message_user d self =
     (if self \<in> set (messages d)
      then find (\<lambda>user. User_id user = Some (Message_user_id self)) (users d)
      else None)"

definition Comment_user :: "db \<Rightarrow> Comment \<Rightarrow> User option" where
  "Comment_user d self =
     (if self \<in> set (comments d)
      then find (\<lambda>user. User_id user = Some (Comment_user_id self)) (users d)
      else None)"

subsection \<open>The predicates of User and Message\<close>

text \<open>
  \<open>is_followed_by\<close> reads \<open>self.followers\<close> and \<open>is_following\<close> reads
  \<open>self.following\<close>. The collection is the first argument: it is the loaded one
  (\<open>User_followers d self\<close>, \<open>User_following d self\<close>) or one that has been changed
  in memory since. The session keeps one object per primary key, so two loaded users are
  the same object exactly when they are the same row: \<open>user == other_user\<close> is
  equality of rows.
\<close>

definition is_followed_by :: "User list \<Rightarrow> User \<Rightarrow> bool" where
  "is_followed_by followers other_user =
     (let found_user_list = [user \<leftarrow> followers. user = other_user]
      in length found_user_list = 1)"

definition is_following :: "User list \<Rightarrow> User \<Rightarrow> bool" where
  "is_following following other_user =
     (let found_user_list = [user \<leftarrow> following. user = other_user]
      in length found_user_list = 1)"

definition is_liked_by :: "db \<Rightarrow> Message \<Rightarrow> int \<Rightarrow> bool" where
  "is_liked_by d self user_id =
     (let user_like = [like \<leftarrow> Message_likes d self. Like_user_id like = user_id]
      in length user_like > 0)"

text \<open>The composite primary key of \<open>follows\<close>, as an invariant of a database.\<close>

definition follows_pk :: "db \<Rightarrow> bool" where
  "follows_pk d = distinct (map (\<lambda>r. (followee_id r, follower_id r)) (follows d))"

subsection \<open>Password hashing\<close>

text \<open>
  \<open>bcrypt = Bcrypt()\<close> is the flask_bcrypt helper, a library outside the module. It
  is a parameter of the model: \<open>generate_password_hash\<close> takes the random salt it
  draws as an explicit argument and returns the hash as text (the source decodes the
  bytes as UTF-8), and \<open>check_password_hash pw_hash password\<close> is its verdict.
\<close>

record Bcrypt =
  generate_password_hash :: "string \<Rightarrow> string \<Rightarrow> string"
  check_password_hash :: "string \<Rightarrow> string \<Rightarrow> bool"

subsection \<open>The session\<close>

text \<open>
  \<open>db.session\<close>: the database as the session reads it, and the objects handed to
  \<open>db.session.add\<close> that are not yet flushed.
\<close>

datatype entity =
  UserObj User
| MessageObj Message
| CommentObj Comment
| LikeObj Like
| FollowObj FollowersFollowee

record session =
  stored :: db
  new :: "entity list"

subsection \<open>\<open>User.signup\<close> and \<open>User.authenticate\<close>\<close>

text \<open>
  \<open>signup\<close> hashes the password, builds the user with the four attributes it is given
  (every other attribute stays \<open>None\<close>) and adds it to the session. It returns the
  user; the session it has changed is returned beside it.
\<close>

definition signup ::
  "Bcrypt \<Rightarrow> string \<Rightarrow> session \<Rightarrow> string \<Rightarrow> string \<Rightarrow> string \<Rightarrow> string option
     \<Rightarrow> User \<times> session" where
  "signup bcrypt salt s username email password image_url =
     (let hashed_pwd = generate_password_hash bcrypt salt password;
          user = \<lparr>User_id = None, User_email = email, User_username = username,
                   User_image_url = image_url, User_header_image_url = None,
                   User_bio = None, User_location = None, User_password = hashed_pwd\<rparr>
      in (user, s\<lparr>new := new s @ [UserObj user]\<rparr>))"

text \<open>\<open>authenticate\<close> returns the user object or Python's \<open>False\<close>.\<close>

datatype user_or_false = Found User | PyFalse

text \<open>
  \<open>cls.query.filter_by(username=username).first()\<close> is the first row with that
  username, or \<open>None\<close>; a mapped object is truthy.
\<close>

definition authenticate :: "Bcrypt \<Rightarrow> db \<Rightarrow> string \<Rightarrow> string \<Rightarrow> user_or_false" where
  "authenticate bcrypt d username password =
     (case find (\<lambda>user. User_username user = username) (users d) of
        Some user \<Rightarrow>
          (let is_auth = check_password_hash bcrypt (User_password user) password
           in if is_auth then Found user else PyFalse)
      | None \<Rightarrow> PyFalse)"

subsection \<open>Serialization\<close>

text \<open>The values a serialized mapping holds; an attribute that is \<open>None\<close> stays \<open>None\<close>.\<close>

datatype pyvalue = PyInt int | PyStr string | PyDateTime datetime | PyNone

datatype error = AttributeError | UniqueViolation | ForeignKeyViolation

definition int_or_none :: "int option \<Rightarrow> pyvalue" where
  "int_or_none v = (case v of None \<Rightarrow> PyNone | Some i \<Rightarrow> PyInt i)"

definition str_or_none :: "string option \<Rightarrow> pyvalue" where
  "str_or_none v = (case v of None \<Rightarrow> PyNone | Some x \<Rightarrow> PyStr x)"

definition datetime_or_none :: "datetime option \<Rightarrow> pyvalue" where
  "datetime_or_none v = (case v of None \<Rightarrow> PyNone | Some t \<Rightarrow> PyDateTime t)"

text \<open>
  \<open>self.user.username\<close> raises AttributeError when \<open>self.user\<close> is \<open>None\<close>;
  otherwise the dict literal is returned.
\<close>

definition Message_serialize :: "db \<Rightarrow> Message \<Rightarrow> error + (string \<rightharpoonup> pyvalue)" where
  "Message_serialize d self =
     (case Message_user d self of
        None \<Rightarrow> Inl AttributeError
      | Some user \<Rightarrow> Inr
          [''id'' \<mapsto> int_or_none (Message_id self),
           ''text'' \<mapsto> PyStr (Message_text self),
           ''user_id'' \<mapsto> PyInt (Message_user_id self),
           ''timestamp'' \<mapsto> datetime_or_none (Message_timestamp self),
           ''username'' \<mapsto> PyStr (User_username user)])"

definition Comment_serialize :: "db \<Rightarrow> Comment \<Rightarrow> error + (string \<rightharpoonup> pyvalue)" where
  "Comment_serialize d self =
     (case Comment_user d self of
        None \<Rightarrow> Inl AttributeError
      | Some user \<Rightarrow> Inr
          [''id'' \<mapsto> int_or_none (Comment_id self),
           ''text'' \<mapsto> PyStr (Comment_text self),
           ''user_id'' \<mapsto> PyInt (Comment_user_id self),
           ''timestamp'' \<mapsto> datetime_or_none (Comment_timestamp self),
           ''username'' \<mapsto> PyStr (User_username user),
           ''msg_id'' \<mapsto> PyInt (Comment_message_id self),
           ''image_url'' \<mapsto> str_or_none (User_image_url user)])"

subsection \<open>Column defaults\<close>

text \<open>
  A column's \<open>default=\<close> argument is evaluated when the class body runs, that is once,
  while the module is imported, and the column keeps the value it was given. The
  timestamp columns of Message and Comment are each declared with
  \<open>default=datetime.utcnow()\<close>: a call, made at the declaration. \<open>models\<close> is the
  module after import, and the two arguments of \<open>import_models\<close> are what the clock
  showed at the call in the body of Message and at the call in the body of Comment.
\<close>

record models =
  Message_timestamp_default :: datetime
  Comment_timestamp_default :: datetime

definition import_models :: "datetime \<Rightarrow> datetime \<Rightarrow> models" where
  "import_models utcnow_in_Message utcnow_in_Comment =
     \<lparr>Message_timestamp_default = utcnow_in_Message,
      Comment_timestamp_default = utcnow_in_Comment\<rparr>"

text \<open>
  An INSERT stores the column's default where the object's attribute is \<open>None\<close>.
  \<open>now\<close> is what the clock shows when the row is inserted; a default that is a value
  does not read it.
\<close>

definition User_insert_defaults :: "User \<Rightarrow> User" where
  "User_insert_defaults u =
     u\<lparr>User_image_url :=
         (case User_image_url u of None \<Rightarrow> Some ''/static/images/default-pic.png''
          | Some v \<Rightarrow> Some v),
       User_header_image_url :=
         (case User_header_image_url u of None \<Rightarrow> Some ''/static/images/warbler-hero.jpg''
          | Some v \<Rightarrow> Some v)\<rparr>"

definition Message_insert_defaults :: "models \<Rightarrow> datetime \<Rightarrow> Message \<Rightarrow> Message" where
  "Message_insert_defaults md now m =
     m\<lparr>Message_timestamp :=
         (case Message_timestamp m of None \<Rightarrow> Some (Message_timestamp_default md)
          | Some t \<Rightarrow> Some t)\<rparr>"

definition Comment_insert_defaults :: "models \<Rightarrow> datetime \<Rightarrow> Comment \<Rightarrow> Comment" where
  "Comment_insert_defaults md now c =
     c\<lparr>Comment_timestamp :=
         (case Comment_timestamp c of None \<Rightarrow> Some (Comment_timestamp_default md)
          | Some t \<Rightarrow> Some t)\<rparr>"

subsection \<open>The storage collaborator\<close>

text \<open>
  Modelled from the spec: the flush and commit of the session and the storage engine's
  constraint checks, which are library code outside models.py. The spec has the engine
  enforce the declared uniqueness and foreign-key constraints, signal a violation to
  the caller, and commit or roll back a unit of work atomically. The constraints are
  the ones the columns declare: the primary keys (a generated integer key takes the
  next unused value), \<open>unique=True\<close> on email and username, and the foreign keys.
  Both violations reach Python as IntegrityError.
\<close>

definition next_id :: "int option list \<Rightarrow> int" where
  "next_id ids = fold max (List.map_filter (\<lambda>i. i) ids) 0 + 1"

definition generated_id :: "int option \<Rightarrow> int option list \<Rightarrow> int option" where
  "generated_id given ids = (case given of None \<Rightarrow> Some (next_id ids) | Some i \<Rightarrow> Some i)"

definition user_exists :: "db \<Rightarrow> int \<Rightarrow> bool" where
  "user_exists d i = (Some i \<in> set (map User_id (users d)))"

definition message_exists :: "db \<Rightarrow> int \<Rightarrow> bool" where
  "message_exists d i = (Some i \<in> set (map Message_id (messages d)))"

fun flush_one :: "models \<Rightarrow> datetime \<Rightarrow> entity \<Rightarrow> db \<Rightarrow> error + db" where
  "flush_one md now (UserObj u) d =
     (let row = User_insert_defaults
                  (u\<lparr>User_id := generated_id (User_id u) (map User_id (users d))\<rparr>)
      in if User_id row \<in> set (map User_id (users d))
            \<or> User_email row \<in> set (map User_email (users d))
            \<or> User_username row \<in> set (map User_username (users d))
         then Inl UniqueViolation
         else Inr (d\<lparr>users := users d @ [row]\<rparr>))"
| "flush_one md now (MessageObj m) d =
     (let row = Message_insert_defaults md now
                  (m\<lparr>Message_id := generated_id (Message_id m) (map Message_id (messages d))\<rparr>)
      in if Message_id row \<in> set (map Message_id (messages d)) then Inl UniqueViolation
         else if \<not> user_exists d (Message_user_id row) then Inl ForeignKeyViolation
         else Inr (d\<lparr>messages := messages d @ [row]\<rparr>))"
| "flush_one md now (CommentObj c) d =
     (let row = Comment_insert_defaults md now
                  (c\<lparr>Comment_id := generated_id (Comment_id c) (map Comment_id (comments d))\<rparr>)
      in if Comment_id row \<in> set (map Comment_id (comments d)) then Inl UniqueViolation
         else if \<not> user_exists d (Comment_user_id row)
                 \<or> \<not> message_exists d (Comment_message_id row) then Inl ForeignKeyViolation
         else Inr (d\<lparr>comments := comments d @ [row]\<rparr>))"
| "flush_one md now (LikeObj l) d =
     (if (Like_user_id l, Like_message_id l)
           \<in> set (map (\<lambda>r. (Like_user_id r, Like_message_id r)) (likes d))
      then Inl UniqueViolation
      else if \<not> user_exists d (Like_user_id l) \<or> \<not> message_exists d (Like_message_id l)
      then Inl ForeignKeyViolation
      else Inr (d\<lparr>likes := likes d @ [l]\<rparr>))"
| "flush_one md now (FollowObj f) d =
     (if (followee_id f, follower_id f)
           \<in> set (map (\<lambda>r. (followee_id r, follower_id r)) (follows d))
      then Inl UniqueViolation
      else if \<not> user_exists d (followee_id f) \<or> \<not> user_exists d (follower_id f)
      then Inl ForeignKeyViolation
      else Inr (d\<lparr>follows := follows d @ [f]\<rparr>))"

fun flush :: "models \<Rightarrow> datetime \<Rightarrow> entity list \<Rightarrow> db \<Rightarrow> error + db" where
  "flush md now [] d = Inr d"
| "flush md now (e # es) d =
     (case flush_one md now e d of
        Inl err \<Rightarrow> Inl err
      | Inr d' \<Rightarrow> flush md now es d')"

text \<open>
  \<open>db.session.commit()\<close>: the pending objects are inserted in turn. When one is
  refused the error is raised and the unit of work is rolled back: the database is as it
  was and the pending objects are dropped.
\<close>

definition commit :: "models \<Rightarrow> datetime \<Rightarrow> session \<Rightarrow> (error + unit) \<times> session" where
  "commit md now s =
     (case flush md now (new s) (stored s) of
        Inl err \<Rightarrow> (Inl err, s\<lparr>new := []\<rparr>)
      | Inr d' \<Rightarrow> (Inr (), \<lparr>stored = d', new = []\<rparr>))"

subsection \<open>Sample rows\<close>

text \<open>
  Rows and a stand-in for the hashing library, for concrete runs. The stand-in keeps
  the password readable in the hash; it only has the shape of the library (a salted
  hash that differs from the password and that the check accepts).
\<close>

definition toy_bcrypt :: Bcrypt where
  "toy_bcrypt =
     \<lparr>generate_password_hash = (\<lambda>salt password. ''$2b$'' @ salt @ ''$'' @ rev password),
      check_password_hash = (\<lambda>pw_hash password.
         length password < length pw_hash \<and> take (length password) (rev pw_hash) = password)\<rparr>"

definition empty_db :: db where
  "empty_db = \<lparr>users = [], messages = [], comments = [], likes = [], follows = []\<rparr>"

definition warble :: Message where
  "warble = \<lparr>Message_id = None, Message_text = ''hello'', Message_timestamp = None,
     Message_user_id = 1\<rparr>"

definition reply :: Comment where
  "reply = \<lparr>Comment_id = None, Comment_text = ''hi'', Comment_timestamp = None,
     Comment_user_id = 2, Comment_message_id = 1\<rparr>"

definition alice :: User where
  "alice = \<lparr>User_id = Some 1, User_email = ''a@x.com'', User_username = ''alice'',
     User_image_url = None, User_header_image_url = None, User_bio = None,
     User_location = None, User_password = ''$2b$saltA$321wp''\<rparr>"

definition bob :: User where
  "bob = \<lparr>User_id = Some 2, User_email = ''b@x.com'', User_username = ''bob'',
     User_image_url = None, User_header_image_url = None, User_bio = None,
     User_location = None, User_password = ''$2b$saltB$terces''\<rparr>"

definition Follow :: "int \<Rightarrow> int \<Rightarrow> FollowersFollowee" where
  "Follow follower followee = \<lparr>followee_id = followee, follower_id = follower\<rparr>"

definition two_users :: "FollowersFollowee list \<Rightarrow> db" where
  "two_users rows =
     \<lparr>users = [alice, bob], messages = [], comments = [], likes = [], follows = rows\<rparr>"

text \<open>
  alice has posted one message, bob likes it, and \<open>follows\<close> holds the row with
  follower id 1 and followee id 2.
\<close>

definition liked_db :: db where
  "liked_db =
     \<lparr>users = [alice, bob],
      messages = [warble\<lparr>Message_id := Some 1, Message_timestamp := Some 100\<rparr>],
      comments = [],
      likes = [\<lparr>Like_user_id = 2, Like_message_id = 1\<rparr>],
      follows = [Follow 1 2]\<rparr>"

text \<open>
  The message and the comment as stored rows (flushed: ids and timestamps set), and a
  database that holds them with their owners.
\<close>

definition posted :: Message where
  "posted = warble\<lparr>Message_id := Some 1, Message_timestamp := Some 100\<rparr>"

definition replied :: Comment where
  "replied = reply\<lparr>Comment_id := Some 1, Comment_timestamp := Some 101\<rparr>"

definition commented_db :: db where
  "commented_db =
     \<lparr>users = [alice, bob], messages = [posted], comments = [replied],
      likes = [], follows = []\<rparr>"

text \<open>
  A session over \<open>liked_db\<close> with three pending objects: a new follow row, then a
  second like of message 1 by bob, then a second copy of the stored follow row.
\<close>

definition retry_session :: session where
  "retry_session =
     \<lparr>stored = liked_db,
      new = [FollowObj (Follow 2 1),
             LikeObj \<lparr>Like_user_id = 2, Like_message_id = 1\<rparr>,
             FollowObj (Follow 1 2)]\<rparr>"

section \<open>The follow graph\<close>

subsection \<open>The loaded collections\<close>

lemma followers_mem:
  "other \<in> set (User_followers d self) \<longleftrightarrow>
     other \<in> set (users d)
     \<and> (\<exists>r \<in> set (follows d). Some (follower_id r) = User_id self
                               \<and> User_id other = Some (followee_id r))"
  by (auto simp: User_followers_def)

lemma following_mem:
  "other \<in> set (User_following d self) \<longleftrightarrow>
     other \<in> set (users d)
     \<and> (\<exists>r \<in> set (follows d). Some (followee_id r) = User_id self
                               \<and> User_id other = Some (follower_id r))"
  by (auto simp: User_following_def)

lemma distinct_followers: "distinct (User_followers d self)"
  by (simp add: User_followers_def)

lemma distinct_following: "distinct (User_following d self)"
  by (simp add: User_following_def)

lemma length_filter_eq_count: "length [x \<leftarrow> xs. x = y] = count_list xs y"
  by (induction xs) auto

lemma count_list_distinct_mem: "distinct xs \<Longrightarrow> x \<in> set xs \<Longrightarrow> count_list xs x = 1"
  by (induction xs) (auto simp: count_list_0_iff)

lemma once_iff_member: "distinct xs \<Longrightarrow> count_list xs x = 1 \<longleftrightarrow> x \<in> set xs"
  using count_list_distinct_mem[of xs x] count_list_0_iff[of xs x] by auto

lemma all_once_distinct: "\<forall>x \<in> set xs. count_list xs x = 1 \<Longrightarrow> distinct xs"
proof (induction xs)
  case Nil
  show ?case by simp
next
  case (Cons a xs)
  have a: "a \<notin> set xs"
    using Cons.prems count_list_0_iff[of xs a] by simp
  have "\<forall>x \<in> set xs. count_list xs x = 1"
  proof
    fix x assume x: "x \<in> set xs"
    then have "a \<noteq> x" using a by auto
    then show "count_list xs x = 1" using Cons.prems x by auto
  qed
  then show ?case using Cons.IH a by simp
qed

lemma is_followed_by_loaded:
  "is_followed_by (User_followers d self) other \<longleftrightarrow> other \<in> set (User_followers d self)"
  using once_iff_member[OF distinct_followers]
  by (simp add: is_followed_by_def length_filter_eq_count)

lemma is_following_loaded:
  "is_following (User_following d self) other \<longleftrightarrow> other \<in> set (User_following d self)"
  using once_iff_member[OF distinct_following]
  by (simp add: is_following_def length_filter_eq_count)

lemmas follow_eval =
  is_followed_by_def is_following_def User_followers_def User_following_def
  follows_pk_def two_users_def alice_def bob_def Follow_def

subsection \<open>A follow row is read in the reverse direction\<close>

text \<open>
  For any two stored users with different ids and no row between them: neither
  predicate holds, and once the row with follower id \<open>a\<close> and followee id \<open>b\<close> is
  added the predicates hold from \<open>b\<close>'s user towards \<open>a\<close>'s, not the other way.
\<close>

lemma follow_row_direction:
  assumes A: "A \<in> set (users d)" and B: "B \<in> set (users d)"
    and ids: "User_id A = Some a" "User_id B = Some b" "a \<noteq> b"
    and none: "\<forall>r \<in> set (follows d). \<not> (follower_id r = a \<and> followee_id r = b)
                                    \<and> \<not> (follower_id r = b \<and> followee_id r = a)"
  shows "\<not> is_following (User_following d A) B \<and> \<not> is_followed_by (User_followers d B) A
       \<and> \<not> is_followed_by (User_followers (d\<lparr>follows := follows d @ [Follow a b]\<rparr>) B) A
       \<and> \<not> is_following (User_following (d\<lparr>follows := follows d @ [Follow a b]\<rparr>) A) B
       \<and> is_followed_by (User_followers (d\<lparr>follows := follows d @ [Follow a b]\<rparr>) A) B
       \<and> is_following (User_following (d\<lparr>follows := follows d @ [Follow a b]\<rparr>) B) A"
  using A B ids none
  by (auto simp: is_followed_by_loaded is_following_loaded followers_mem following_mem
      Follow_def)

text \<open>
  C1. The claim: two distinct users A and B with no follow row between them have
  \<open>A.is_following(B)\<close> and \<open>B.is_followed_by(A)\<close> false, and after the one row with
  follower id A and followee id B is created both are true. On the code the first half
  holds and the second does not: with alice (id 1) as A and bob (id 2) as B, the row
  \<open>(follower_id = 1, followee_id = 2)\<close> leaves \<open>bob.is_followed_by(alice)\<close> and
  \<open>alice.is_following(bob)\<close> false and makes \<open>alice.is_followed_by(bob)\<close> and
  \<open>bob.is_following(alice)\<close> true, because the \<open>primaryjoin\<close> of \<open>followers\<close>
  matches \<open>self\<close> against \<open>follower_id\<close>.
\<close>

theorem follow_row_read_reversed:
  "\<not> is_following (User_following (two_users []) alice) bob
   \<and> \<not> is_followed_by (User_followers (two_users []) bob) alice
   \<and> \<not> is_followed_by (User_followers (two_users [Follow 1 2]) bob) alice
   \<and> \<not> is_following (User_following (two_users [Follow 1 2]) alice) bob
   \<and> is_followed_by (User_followers (two_users [Follow 1 2]) alice) bob
   \<and> is_following (User_following (two_users [Follow 1 2]) bob) alice"
  by (simp add: follow_eval)

subsection \<open>The two predicates are converses\<close>

text \<open>
  C9. For every pair of stored users A and B, \<open>A.is_following(B)\<close> returns the same
  value as \<open>B.is_followed_by(A)\<close>: \<open>following\<close> is the backref of \<open>followers\<close>, so B
  is in A's \<open>following\<close> exactly when A is in B's \<open>followers\<close>.
\<close>

theorem is_following_converse:
  assumes "A \<in> set (users d)" "B \<in> set (users d)"
  shows "is_following (User_following d A) B = is_followed_by (User_followers d B) A"
proof -
  have "B \<in> set (User_following d A) \<longleftrightarrow> A \<in> set (User_followers d B)"
    using assms by (auto simp: followers_mem following_mem)
  then show ?thesis
    by (simp add: is_followed_by_loaded is_following_loaded)
qed

theorem is_following_converse_witness:
  "bob \<in> set (users (two_users [Follow 1 2]))
   \<and> alice \<in> set (users (two_users [Follow 1 2]))
   \<and> is_following (User_following (two_users [Follow 1 2]) bob) alice
   \<and> is_following (User_following (two_users [Follow 1 2]) bob) alice
       = is_followed_by (User_followers (two_users [Follow 1 2]) alice) bob
   \<and> \<not> is_following (User_following (two_users [Follow 1 2]) alice) bob
   \<and> is_following (User_following (two_users [Follow 1 2]) alice) bob
       = is_followed_by (User_followers (two_users [Follow 1 2]) bob) alice"
proof -
  have a: "alice \<in> set (users (two_users [Follow 1 2]))"
    and b: "bob \<in> set (users (two_users [Follow 1 2]))"
    by (simp_all add: two_users_def)
  have t: "is_following (User_following (two_users [Follow 1 2]) bob) alice"
    and f: "\<not> is_following (User_following (two_users [Follow 1 2]) alice) bob"
    by (simp_all add: follow_eval)
  show ?thesis
    using a b t f is_following_converse [OF b a] is_following_converse [OF a b]
    by simp
qed

subsection \<open>Exactly once, not at least once\<close>

text \<open>
  C10, as stated: the predicates coincide with set membership only under the invariant
  that the primary key of \<open>follows\<close> forbids duplicate pairs. With the pair (1, 2)
  twice in \<open>follows\<close> the invariant fails, and still bob is loaded once into alice's
  \<open>followers\<close> and alice once into bob's \<open>following\<close>: both predicates return true,
  as membership does.
\<close>

theorem duplicate_rows_loaded_once:
  "\<not> follows_pk (two_users [Follow 1 2, Follow 1 2])
   \<and> bob \<in> set (User_followers (two_users [Follow 1 2, Follow 1 2]) alice)
   \<and> is_followed_by (User_followers (two_users [Follow 1 2, Follow 1 2]) alice) bob
   \<and> alice \<in> set (User_following (two_users [Follow 1 2, Follow 1 2]) bob)
   \<and> is_following (User_following (two_users [Follow 1 2, Follow 1 2]) bob) alice"
  by (simp add: follow_eval)

text \<open>
  C10, amended. \<open>is_followed_by\<close> and \<open>is_following\<close> test that the other user occurs
  exactly once in the relationship collection (count equal to 1, not at least 1): both
  return false when the other user is absent and also when it occurs more than once
  (although it is then a member), so they coincide with set membership exactly on the
  collections that hold no user twice. A collection loaded from the database holds each
  related user once, with or without the primary key of \<open>follows\<close>, so on loaded
  collections the predicates are membership; a user occurs more than once only in a
  collection changed in memory.
\<close>

theorem followed_by_exactly_once:
  "(is_followed_by coll other \<longleftrightarrow> count_list coll other = 1)
   \<and> (is_following coll other \<longleftrightarrow> count_list coll other = 1)
   \<and> (other \<notin> set coll \<longrightarrow> \<not> is_followed_by coll other \<and> \<not> is_following coll other)
   \<and> (1 < count_list coll other \<longrightarrow>
         other \<in> set coll \<and> \<not> is_followed_by coll other \<and> \<not> is_following coll other)
   \<and> ((\<forall>u. is_followed_by coll u \<longleftrightarrow> u \<in> set coll) \<longleftrightarrow> distinct coll)
   \<and> ((\<forall>u. is_following coll u \<longleftrightarrow> u \<in> set coll) \<longleftrightarrow> distinct coll)
   \<and> distinct (User_followers d self) \<and> distinct (User_following d self)
   \<and> (is_followed_by (User_followers d self) other
        \<longleftrightarrow> other \<in> set (User_followers d self))
   \<and> (is_following (User_following d self) other
        \<longleftrightarrow> other \<in> set (User_following d self))"
proof -
  have 1: "is_followed_by xs u \<longleftrightarrow> count_list xs u = 1" for xs u
    by (simp add: is_followed_by_def length_filter_eq_count)
  have 2: "is_following xs u \<longleftrightarrow> count_list xs u = 1" for xs u
    by (simp add: is_following_def length_filter_eq_count)
  have 3: "other \<notin> set coll \<Longrightarrow> count_list coll other \<noteq> 1"
    using count_list_0_iff[of coll other] by arith
  have 4: "1 < count_list coll other \<Longrightarrow> other \<in> set coll \<and> count_list coll other \<noteq> 1"
    using count_list_0_iff[of coll other] by arith
  have 5: "(\<forall>u. count_list coll u = 1 \<longleftrightarrow> u \<in> set coll) \<longleftrightarrow> distinct coll"
  proof
    assume "\<forall>u. count_list coll u = 1 \<longleftrightarrow> u \<in> set coll"
    then have "\<forall>x \<in> set coll. count_list coll x = 1" by simp
    then show "distinct coll" by (rule all_once_distinct)
  next
    assume "distinct coll"
    then show "\<forall>u. count_list coll u = 1 \<longleftrightarrow> u \<in> set coll"
      using once_iff_member[of coll] by blast
  qed
  have 6: "count_list (User_followers d self) other = 1
      \<longleftrightarrow> other \<in> set (User_followers d self)"
    by (rule once_iff_member[OF distinct_followers])
  have 7: "count_list (User_following d self) other = 1
      \<longleftrightarrow> other \<in> set (User_following d self)"
    by (rule once_iff_member[OF distinct_following])
  show ?thesis
    unfolding 1 2 using 3 4 5 6 7 distinct_followers[of d self] distinct_following[of d self]
    by blast
qed

text \<open>
  The witness runs the cases: bob added twice to a collection in memory, bob once in
  a loaded collection, and alice absent from it.
\<close>

theorem followed_by_exactly_once_witness:
  "1 < count_list [bob, bob] bob
   \<and> bob \<in> set [bob, bob]
   \<and> \<not> is_followed_by [bob, bob] bob \<and> \<not> is_following [bob, bob] bob
   \<and> \<not> distinct [bob, bob]
   \<and> alice \<notin> set (User_followers (two_users [Follow 1 2]) alice)
   \<and> \<not> is_followed_by (User_followers (two_users [Follow 1 2]) alice) alice
   \<and> \<not> is_following (User_followers (two_users [Follow 1 2]) alice) alice
   \<and> bob \<in> set (User_followers (two_users [Follow 1 2]) alice)
   \<and> is_followed_by (User_followers (two_users [Follow 1 2]) alice) bob"
proof -
  have dup: "1 < count_list [bob, bob] bob"
    by simp
  have absent: "alice \<notin> set (User_followers (two_users [Follow 1 2]) alice)"
    and mem: "bob \<in> set (User_followers (two_users [Follow 1 2]) alice)"
    by (simp_all add: follow_eval)
  note twice = followed_by_exactly_once [of "[bob, bob]" bob]
  note loaded = followed_by_exactly_once [of "User_followers (two_users [Follow 1 2]) alice"
      _ "two_users [Follow 1 2]" alice]
  have d: "bob \<in> set [bob, bob] \<and> \<not> is_followed_by [bob, bob] bob
      \<and> \<not> is_following [bob, bob] bob"
    using dup twice by blast
  have nd: "\<not> distinct [bob, bob]"
    by simp
  have a: "\<not> is_followed_by (User_followers (two_users [Follow 1 2]) alice) alice
      \<and> \<not> is_following (User_followers (two_users [Follow 1 2]) alice) alice"
    using absent loaded [of alice] by blast
  have m: "is_followed_by (User_followers (two_users [Follow 1 2]) alice) bob"
    using mem loaded [of bob] by blast
  show ?thesis
    using dup d nd absent a mem m by blast
qed

section \<open>Likes\<close>

text \<open>
  C7. For every message \<open>m\<close> and user id \<open>u\<close>, \<open>m.is_liked_by(u)\<close> is true if and
  only if at least one Like row attached to \<open>m\<close> has \<open>user_id\<close> equal to \<open>u\<close>.
\<close>

theorem is_liked_by_iff_some_like:
  "is_liked_by d m u \<longleftrightarrow> (\<exists>like \<in> set (Message_likes d m). Like_user_id like = u)"
proof -
  have "length (filter P xs) > 0 \<longleftrightarrow> (\<exists>x \<in> set xs. P x)" for P :: "Like \<Rightarrow> bool" and xs
    by (simp add: filter_empty_conv)
  then show ?thesis
    by (simp add: is_liked_by_def)
qed



section \<open>Authentication\<close>

lemma find_unique_key:
  "distinct (map f xs) \<Longrightarrow> x \<in> set xs \<Longrightarrow> find (\<lambda>u. f u = f x) xs = Some x"
  by (induction xs) (force simp: image_iff)+

lemma find_no_key: "k \<notin> f ` set xs \<Longrightarrow> find (\<lambda>u. f u = k) xs = None"
  by (induction xs) auto

text \<open>
  C4. With usernames unique in \<open>users\<close>: \<open>authenticate\<close> returns the stored user of
  that username when the password verifies against that user's stored hash; it returns
  \<open>False\<close> when the password does not verify and \<open>False\<close> when no user has the
  username. The two failures return the same value, whatever the databases, usernames
  and passwords of the two calls.
\<close>

theorem authenticate_result:
  assumes "distinct (map User_username (users d))"
  shows "(user \<in> set (users d) \<and> User_username user = username
            \<and> check_password_hash bcrypt (User_password user) password
          \<longrightarrow> authenticate bcrypt d username password = Found user)
     \<and> (user \<in> set (users d) \<and> User_username user = username
            \<and> \<not> check_password_hash bcrypt (User_password user) password
          \<longrightarrow> authenticate bcrypt d username password = PyFalse)
     \<and> (username \<notin> User_username ` set (users d)
          \<longrightarrow> authenticate bcrypt d username password = PyFalse)
     \<and> (user \<in> set (users d) \<and> User_username user = username
            \<and> \<not> check_password_hash bcrypt (User_password user) password
            \<and> unknown \<notin> User_username ` set (users d')
          \<longrightarrow> authenticate bcrypt d username password
                = authenticate bcrypt d' unknown password')"
proof -
  have known: "find (\<lambda>u. User_username u = username) (users d) = Some user"
    if "user \<in> set (users d)" "User_username user = username"
    using find_unique_key[OF assms that(1)] that(2) by simp
  have no: "authenticate bcrypt db n p = PyFalse"
    if "n \<notin> User_username ` set (users db)" for db n p
    using find_no_key[OF that] by (simp add: authenticate_def)
  show ?thesis
    using known no by (auto simp: authenticate_def)
qed

theorem authenticate_result_witness:
  "distinct (map User_username (users (two_users [])))
   \<and> alice \<in> set (users (two_users [])) \<and> User_username alice = ''alice''
   \<and> check_password_hash toy_bcrypt (User_password alice) ''pw123''
   \<and> authenticate toy_bcrypt (two_users []) ''alice'' ''pw123'' = Found alice
   \<and> \<not> check_password_hash toy_bcrypt (User_password alice) ''wrong''
   \<and> authenticate toy_bcrypt (two_users []) ''alice'' ''wrong'' = PyFalse
   \<and> ''carol'' \<notin> User_username ` set (users (two_users []))
   \<and> authenticate toy_bcrypt (two_users []) ''carol'' ''pw123'' = PyFalse
   \<and> authenticate toy_bcrypt (two_users []) ''alice'' ''wrong''
       = authenticate toy_bcrypt empty_db ''alice'' ''pw123''"
proof -
  have u: "distinct (map User_username (users (two_users [])))"
    by (simp add: two_users_def alice_def bob_def)
  have a: "alice \<in> set (users (two_users []))" "User_username alice = ''alice''"
    by (simp_all add: two_users_def alice_def)
  have ok: "check_password_hash toy_bcrypt (User_password alice) ''pw123''"
    and bad: "\<not> check_password_hash toy_bcrypt (User_password alice) ''wrong''"
    by (simp_all add: toy_bcrypt_def alice_def)
  have carol: "''carol'' \<notin> User_username ` set (users (two_users []))"
    and nobody: "''alice'' \<notin> User_username ` set (users empty_db)"
    by (simp_all add: two_users_def alice_def bob_def empty_db_def)
  have r1: "authenticate toy_bcrypt (two_users []) ''alice'' ''pw123'' = Found alice"
    using authenticate_result [OF u, of alice "''alice''" toy_bcrypt "''pw123''"] a ok
    by blast
  have r2: "authenticate toy_bcrypt (two_users []) ''alice'' ''wrong'' = PyFalse"
    using authenticate_result [OF u, of alice "''alice''" toy_bcrypt "''wrong''"] a bad
    by blast
  have r3: "authenticate toy_bcrypt (two_users []) ''carol'' ''pw123'' = PyFalse"
    using authenticate_result [OF u, of _ "''carol''" toy_bcrypt "''pw123''"] carol
    by blast
  have r4: "authenticate toy_bcrypt (two_users []) ''alice'' ''wrong''
       = authenticate toy_bcrypt empty_db ''alice'' ''pw123''"
    using authenticate_result [OF u, of alice "''alice''" toy_bcrypt "''wrong''"
        "''alice''" empty_db "''pw123''"] a bad nobody
    by blast
  show ?thesis
    using u a ok bad carol r1 r2 r3 r4 by blast
qed

section \<open>Signing up\<close>

lemma fold_max_ge_init: "(a::int) \<le> fold max xs a"
proof (induction xs arbitrary: a)
  case Nil
  show ?case by simp
next
  case (Cons x xs)
  have "a \<le> max x a" by simp
  also have "\<dots> \<le> fold max xs (max x a)" by (rule Cons.IH)
  finally show ?case by simp
qed

lemma fold_max_ge_elem: "(x::int) \<in> set xs \<Longrightarrow> x \<le> fold max xs a"
proof (induction xs arbitrary: a)
  case Nil
  then show ?case by simp
next
  case (Cons y ys)
  show ?case
  proof (cases "x = y")
    case True
    have "x \<le> max y a" using True by simp
    also have "\<dots> \<le> fold max ys (max y a)" by (rule fold_max_ge_init)
    finally show ?thesis by simp
  next
    case False
    then have "x \<in> set ys" using Cons.prems by simp
    then show ?thesis using Cons.IH by simp
  qed
qed

lemma next_id_fresh: "Some (next_id ids) \<notin> set ids"
proof
  assume "Some (next_id ids) \<in> set ids"
  then have "next_id ids \<in> set (List.map_filter (\<lambda>i. i) ids)"
    by (force simp: List.map_filter_def)
  then have "next_id ids \<le> fold max (List.map_filter (\<lambda>i. i) ids) 0"
    by (rule fold_max_ge_elem)
  then show False by (simp add: next_id_def)
qed

lemma filter_append_new:
  "k \<notin> f ` set xs \<Longrightarrow> f x = k \<Longrightarrow> [u \<leftarrow> xs @ [x]. f u = k] = [x]"
  by (force simp: filter_empty_conv image_iff)

lemma find_append_new:
  "k \<notin> f ` set xs \<Longrightarrow> f x = k \<Longrightarrow> find (\<lambda>u. f u = k) (xs @ [x]) = Some x"
  by (induction xs) auto

text \<open>
  C3. For a username and an email that no stored user has, and a password that the
  hashing library hashes to something other than itself and then verifies, \<open>signup\<close>
  followed by \<open>commit\<close> (with nothing else pending) succeeds, and afterwards exactly
  one stored user has the username: the user \<open>signup\<close> returned, with its generated id
  and column defaults. Its stored password is not the plaintext, and
  \<open>authenticate(username, password)\<close> returns it.
\<close>

theorem signup_commit_authenticate:
  assumes pending: "new s = []"
    and name: "username \<notin> User_username ` set (users (stored s))"
    and mail: "email \<notin> User_email ` set (users (stored s))"
    and verifies:
      "check_password_hash bcrypt (generate_password_hash bcrypt salt password) password"
    and hashed: "generate_password_hash bcrypt salt password \<noteq> password"
  shows "\<exists>user' s'.
      commit md now (snd (signup bcrypt salt s username email password image_url)) = (Inr (), s')
    \<and> new s' = []
    \<and> [u \<leftarrow> users (stored s'). User_username u = username] = [user']
    \<and> user' = User_insert_defaults
         ((fst (signup bcrypt salt s username email password image_url))
            \<lparr>User_id := User_id user'\<rparr>)
    \<and> User_id user' \<noteq> None
    \<and> User_password user' \<noteq> password
    \<and> authenticate bcrypt (stored s') username password = Found user'"
proof -
  define d where "d = stored s"
  define user where "user = fst (signup bcrypt salt s username email password image_url)"
  define row where "row = User_insert_defaults
      (user\<lparr>User_id := generated_id (User_id user) (map User_id (users d))\<rparr>)"
  have user: "user = \<lparr>User_id = None, User_email = email, User_username = username,
      User_image_url = image_url, User_header_image_url = None, User_bio = None,
      User_location = None, User_password = generate_password_hash bcrypt salt password\<rparr>"
    by (simp add: user_def signup_def Let_def)
  have s1: "snd (signup bcrypt salt s username email password image_url)
      = s\<lparr>new := [UserObj user]\<rparr>"
    by (simp add: user signup_def pending Let_def)
  have row_id: "User_id row = Some (next_id (map User_id (users d)))"
    by (simp add: row_def user User_insert_defaults_def generated_id_def)
  have row_cols: "User_username row = username" "User_email row = email"
    "User_password row = generate_password_hash bcrypt salt password"
    by (simp_all add: row_def user User_insert_defaults_def)
  have fresh: "User_id row \<notin> set (map User_id (users d))"
    unfolding row_id by (rule next_id_fresh)
  have name': "User_username row \<notin> set (map User_username (users d))"
    and mail': "User_email row \<notin> set (map User_email (users d))"
    using name mail by (simp_all add: row_cols d_def)
  have one: "flush_one md now (UserObj user) d = Inr (d\<lparr>users := users d @ [row]\<rparr>)"
    unfolding flush_one.simps Let_def row_def[symmetric]
    using fresh name' mail' by simp
  have c: "commit md now (s\<lparr>new := [UserObj user]\<rparr>)
      = (Inr (), \<lparr>stored = d\<lparr>users := users d @ [row]\<rparr>, new = []\<rparr>)"
    using one by (simp add: commit_def d_def)
  have q: "[u \<leftarrow> users d @ [row]. User_username u = username] = [row]"
    using name row_cols(1) by (intro filter_append_new) (simp_all add: d_def)
  have f: "find (\<lambda>u. User_username u = username) (users d @ [row]) = Some row"
    using name row_cols(1) by (intro find_append_new) (simp_all add: d_def)
  have a: "authenticate bcrypt (d\<lparr>users := users d @ [row]\<rparr>) username password = Found row"
    using f verifies by (simp add: authenticate_def row_cols)
  have r: "row = User_insert_defaults (user\<lparr>User_id := User_id row\<rparr>)"
    by (simp add: row_def user User_insert_defaults_def generated_id_def)
  show ?thesis
    unfolding s1 c user_def[symmetric]
    using q r a hashed row_id row_cols by (intro exI[of _ row] exI) auto
qed

text \<open>The witness is the scenario of the spec: alice signs up on an empty database.\<close>

theorem signup_commit_authenticate_witness:
  "new \<lparr>stored = empty_db, new = []\<rparr> = []
   \<and> ''alice'' \<notin> User_username ` set (users (stored \<lparr>stored = empty_db, new = []\<rparr>))
   \<and> ''a@x.com'' \<notin> User_email ` set (users (stored \<lparr>stored = empty_db, new = []\<rparr>))
   \<and> check_password_hash toy_bcrypt
        (generate_password_hash toy_bcrypt ''salt'' ''pw123'') ''pw123''
   \<and> generate_password_hash toy_bcrypt ''salt'' ''pw123'' \<noteq> ''pw123''
   \<and> (\<exists>user' s'.
        commit (import_models 100 101) 500
          (snd (signup toy_bcrypt ''salt'' \<lparr>stored = empty_db, new = []\<rparr>
                  ''alice'' ''a@x.com'' ''pw123'' None)) = (Inr (), s')
      \<and> new s' = []
      \<and> [u \<leftarrow> users (stored s'). User_username u = ''alice''] = [user']
      \<and> user' = User_insert_defaults
           ((fst (signup toy_bcrypt ''salt'' \<lparr>stored = empty_db, new = []\<rparr>
                    ''alice'' ''a@x.com'' ''pw123'' None))\<lparr>User_id := User_id user'\<rparr>)
      \<and> User_id user' \<noteq> None
      \<and> User_password user' \<noteq> ''pw123''
      \<and> authenticate toy_bcrypt (stored s') ''alice'' ''pw123'' = Found user')
   \<and> commit (import_models 100 101) 500
        (snd (signup toy_bcrypt ''salt'' \<lparr>stored = empty_db, new = []\<rparr>
                ''alice'' ''a@x.com'' ''pw123'' None))
      = (Inr (), \<lparr>stored = empty_db\<lparr>users :=
           [\<lparr>User_id = Some 1, User_email = ''a@x.com'', User_username = ''alice'',
              User_image_url = Some ''/static/images/default-pic.png'',
              User_header_image_url = Some ''/static/images/warbler-hero.jpg'',
              User_bio = None, User_location = None,
              User_password = ''$2b$salt$321wp''\<rparr>]\<rparr>, new = []\<rparr>)"
proof -
  have h1: "new \<lparr>stored = empty_db, new = []\<rparr> = []"
    by simp
  have h2: "''alice'' \<notin> User_username ` set (users (stored \<lparr>stored = empty_db, new = []\<rparr>))"
    and h3: "''a@x.com'' \<notin> User_email ` set (users (stored \<lparr>stored = empty_db, new = []\<rparr>))"
    by (simp_all add: empty_db_def)
  have h4: "check_password_hash toy_bcrypt
        (generate_password_hash toy_bcrypt ''salt'' ''pw123'') ''pw123''"
    and h5: "generate_password_hash toy_bcrypt ''salt'' ''pw123'' \<noteq> ''pw123''"
    by (simp_all add: toy_bcrypt_def)
  note run = signup_commit_authenticate [OF h1 h2 h3 h4 h5,
      of "import_models 100 101" 500 None]
  have computed: "commit (import_models 100 101) 500
        (snd (signup toy_bcrypt ''salt'' \<lparr>stored = empty_db, new = []\<rparr>
                ''alice'' ''a@x.com'' ''pw123'' None))
      = (Inr (), \<lparr>stored = empty_db\<lparr>users :=
           [\<lparr>User_id = Some 1, User_email = ''a@x.com'', User_username = ''alice'',
              User_image_url = Some ''/static/images/default-pic.png'',
              User_header_image_url = Some ''/static/images/warbler-hero.jpg'',
              User_bio = None, User_location = None,
              User_password = ''$2b$salt$321wp''\<rparr>]\<rparr>, new = []\<rparr>)"
    by (simp add: commit_def signup_def toy_bcrypt_def empty_db_def User_insert_defaults_def
        generated_id_def next_id_def List.map_filter_def Let_def)
  show ?thesis
    using h1 h2 h3 h4 h5 run computed by blast
qed

section \<open>Serialization\<close>

lemma find_not_None_iff: "find P xs \<noteq> None \<longleftrightarrow> (\<exists>x \<in> set xs. P x)"
  by (induction xs) auto

lemma Message_user_loaded:
  "Message_user d m \<noteq> None \<longleftrightarrow>
     m \<in> set (messages d) \<and> (\<exists>u \<in> set (users d). User_id u = Some (Message_user_id m))"
  using find_not_None_iff[of "\<lambda>user. User_id user = Some (Message_user_id m)" "users d"]
  by (simp add: Message_user_def)

lemma Comment_user_loaded:
  "Comment_user d c \<noteq> None \<longleftrightarrow>
     c \<in> set (comments d) \<and> (\<exists>u \<in> set (users d). User_id u = Some (Comment_user_id c))"
  using find_not_None_iff[of "\<lambda>user. User_id user = Some (Comment_user_id c)" "users d"]
  by (simp add: Comment_user_def)

text \<open>
  C5. For every Message whose owning user is loaded, \<open>serialize\<close> returns a mapping
  with exactly the keys id, text, user_id, timestamp and username; for every Comment
  whose owning user is loaded, it returns a mapping with exactly those keys and msg_id
  and image_url. The owner is loaded exactly for a stored row whose \<open>user_id\<close> is
  the id of a stored user.
\<close>

theorem serialize_keys:
  "(Message_user d m \<noteq> None \<longrightarrow>
      (\<exists>r. Message_serialize d m = Inr r
         \<and> dom r = {''id'', ''text'', ''user_id'', ''timestamp'', ''username''}))
   \<and> (Comment_user d c \<noteq> None \<longrightarrow>
      (\<exists>r. Comment_serialize d c = Inr r
         \<and> dom r = {''id'', ''text'', ''user_id'', ''timestamp'', ''username'',
                    ''msg_id'', ''image_url''}))
   \<and> (Message_user d m \<noteq> None \<longleftrightarrow>
        m \<in> set (messages d)
        \<and> (\<exists>u \<in> set (users d). User_id u = Some (Message_user_id m)))
   \<and> (Comment_user d c \<noteq> None \<longleftrightarrow>
        c \<in> set (comments d)
        \<and> (\<exists>u \<in> set (users d). User_id u = Some (Comment_user_id c)))"
proof -
  have m: "Message_user d m \<noteq> None \<longrightarrow>
      (\<exists>r. Message_serialize d m = Inr r
         \<and> dom r = {''id'', ''text'', ''user_id'', ''timestamp'', ''username''})"
    by (auto simp: Message_serialize_def)
  have c: "Comment_user d c \<noteq> None \<longrightarrow>
      (\<exists>r. Comment_serialize d c = Inr r
         \<and> dom r = {''id'', ''text'', ''user_id'', ''timestamp'', ''username'',
                    ''msg_id'', ''image_url''})"
    by (auto simp: Comment_serialize_def)
  show ?thesis
    using m c Message_user_loaded[of d m] Comment_user_loaded[of d c] by blast
qed

text \<open>
  The witness serializes the stored message and the stored comment; the same message
  and comment before they are flushed have no owner loaded, and \<open>serialize\<close> raises.
\<close>

theorem serialize_keys_witness:
  "Message_user commented_db posted \<noteq> None
   \<and> (\<exists>r. Message_serialize commented_db posted = Inr r
         \<and> dom r = {''id'', ''text'', ''user_id'', ''timestamp'', ''username''})
   \<and> Comment_user commented_db replied \<noteq> None
   \<and> (\<exists>r. Comment_serialize commented_db replied = Inr r
         \<and> dom r = {''id'', ''text'', ''user_id'', ''timestamp'', ''username'',
                    ''msg_id'', ''image_url''})
   \<and> Message_user commented_db warble = None
   \<and> Message_serialize commented_db warble = Inl AttributeError
   \<and> Comment_user commented_db reply = None
   \<and> Comment_serialize commented_db reply = Inl AttributeError"
proof -
  have m: "Message_user commented_db posted \<noteq> None"
    by (simp add: Message_user_def commented_db_def posted_def warble_def alice_def)
  have c: "Comment_user commented_db replied \<noteq> None"
    by (simp add: Comment_user_def commented_db_def replied_def reply_def alice_def bob_def)
  have um: "Message_user commented_db warble = None"
    by (simp add: Message_user_def commented_db_def posted_def warble_def)
  have uc: "Comment_user commented_db reply = None"
    by (simp add: Comment_user_def commented_db_def replied_def reply_def)
  have em: "Message_serialize commented_db warble = Inl AttributeError"
    by (simp add: Message_serialize_def um)
  have ec: "Comment_serialize commented_db reply = Inl AttributeError"
    by (simp add: Comment_serialize_def uc)
  show ?thesis
    using m c um uc em ec serialize_keys [of commented_db posted replied] by blast
qed

section \<open>Default timestamps\<close>

text \<open>
  C2. The claim: a Message or Comment created without an explicit timestamp stores the
  value of the clock at the moment the row is created. On the code it stores the value
  the clock had when the module was imported. The module is imported with the clock at
  100 (Message) and 101 (Comment); at 500 a message and a comment without timestamps
  are committed: they are stored with timestamps 100 and 101, not 500.
\<close>

theorem default_timestamp_not_creation_time:
  "Message_timestamp (Message_insert_defaults (import_models 100 101) 500 warble) = Some 100
   \<and> Comment_timestamp (Comment_insert_defaults (import_models 100 101) 500 reply) = Some 101
   \<and> commit (import_models 100 101) 500
       \<lparr>stored = two_users [], new = [MessageObj warble, CommentObj reply]\<rparr>
     = (Inr (), \<lparr>stored = (two_users [])
          \<lparr>messages := [warble\<lparr>Message_id := Some 1, Message_timestamp := Some 100\<rparr>],
           comments := [reply\<lparr>Comment_id := Some 1, Comment_timestamp := Some 101\<rparr>]\<rparr>,
         new = []\<rparr>)"
  by (simp add: commit_def two_users_def warble_def reply_def import_models_def
      Message_insert_defaults_def Comment_insert_defaults_def generated_id_def next_id_def
      user_exists_def message_exists_def alice_def bob_def List.map_filter_def)

text \<open>
  C8, as stated: one default timestamp, evaluated once at import, that every Message and
  every Comment created without a timestamp receives. The module has two calls of
  \<open>datetime.utcnow()\<close>, one in each class body; when the clock moves between them
  (here from 100 to 101) a message and a comment created without timestamps receive
  different values.
\<close>

theorem message_and_comment_defaults_differ:
  "Message_timestamp (Message_insert_defaults (import_models 100 101) 500 warble)
   \<noteq> Comment_timestamp (Comment_insert_defaults (import_models 100 101) 500 reply)"
  by (simp add: warble_def reply_def import_models_def
      Message_insert_defaults_def Comment_insert_defaults_def)

text \<open>
  C8, amended. \<open>Message.timestamp\<close> and \<open>Comment.timestamp\<close> are two column
  declarations, each with a default of its own. A Message created without an explicit
  timestamp stores the default of Message's column and a Comment created without one
  stores the default of Comment's column; a row created with an explicit timestamp
  stores that timestamp. Nothing makes the two defaults one value: the default
  timestamps of a message and of a comment are equal exactly when the defaults of the
  two columns are. (When a default is evaluated is not part of this statement.)
\<close>

theorem default_timestamp_per_class:
  "Message_timestamp (Message_insert_defaults md now (m\<lparr>Message_timestamp := None\<rparr>))
     = Some (Message_timestamp_default md)
   \<and> Comment_timestamp (Comment_insert_defaults md now (c\<lparr>Comment_timestamp := None\<rparr>))
     = Some (Comment_timestamp_default md)
   \<and> Message_timestamp (Message_insert_defaults md now (m\<lparr>Message_timestamp := Some t\<rparr>))
     = Some t
   \<and> Comment_timestamp (Comment_insert_defaults md now (c\<lparr>Comment_timestamp := Some t\<rparr>))
     = Some t
   \<and> (Message_timestamp (Message_insert_defaults md now (m\<lparr>Message_timestamp := None\<rparr>))
      = Comment_timestamp (Comment_insert_defaults md now' (c\<lparr>Comment_timestamp := None\<rparr>))
      \<longleftrightarrow> Message_timestamp_default md = Comment_timestamp_default md)"
  by (simp add: Message_insert_defaults_def Comment_insert_defaults_def)

section \<open>Composite primary keys\<close>

lemma flush_one_keeps_rows:
  assumes "flush_one md now e d = Inr d'"
  shows "set (likes d) \<subseteq> set (likes d') \<and> set (follows d) \<subseteq> set (follows d')"
  using assms by (cases e) (auto simp: Let_def split: if_splits)

lemma flush_one_duplicate_like:
  assumes "like \<in> set (likes d)" "Like_user_id l = Like_user_id like"
    "Like_message_id l = Like_message_id like"
  shows "flush_one md now (LikeObj l) d = Inl UniqueViolation"
  using assms by (force simp: image_iff)

lemma flush_one_duplicate_follow:
  assumes "row \<in> set (follows d)" "follower_id f = follower_id row"
    "followee_id f = followee_id row"
  shows "flush_one md now (FollowObj f) d = Inl UniqueViolation"
  using assms by (force simp: image_iff)

lemma flush_fails_on_duplicate_like:
  assumes "LikeObj l \<in> set es" "like \<in> set (likes d)"
    "Like_user_id l = Like_user_id like" "Like_message_id l = Like_message_id like"
  shows "\<exists>err. flush md now es d = Inl err"
  using assms
proof (induction es arbitrary: d)
  case Nil
  then show ?case by simp
next
  case (Cons e es)
  show ?case
  proof (cases "flush_one md now e d")
    case (Inl err)
    then show ?thesis by simp
  next
    case (Inr d')
    then have keep: "like \<in> set (likes d')"
      using flush_one_keeps_rows[OF Inr] Cons.prems(2) by blast
    have "e \<noteq> LikeObj l"
      using Inr flush_one_duplicate_like[OF Cons.prems(2-4), of md now] by auto
    then have "LikeObj l \<in> set es" using Cons.prems(1) by simp
    then show ?thesis using Cons.IH[OF _ keep Cons.prems(3,4)] Inr by simp
  qed
qed

lemma flush_fails_on_duplicate_follow:
  assumes "FollowObj f \<in> set es" "row \<in> set (follows d)"
    "follower_id f = follower_id row" "followee_id f = followee_id row"
  shows "\<exists>err. flush md now es d = Inl err"
  using assms
proof (induction es arbitrary: d)
  case Nil
  then show ?case by simp
next
  case (Cons e es)
  show ?case
  proof (cases "flush_one md now e d")
    case (Inl err)
    then show ?thesis by simp
  next
    case (Inr d')
    then have keep: "row \<in> set (follows d')"
      using flush_one_keeps_rows[OF Inr] Cons.prems(2) by blast
    have "e \<noteq> FollowObj f"
      using Inr flush_one_duplicate_follow[OF Cons.prems(2-4), of md now] by auto
    then have "FollowObj f \<in> set es" using Cons.prems(1) by simp
    then show ?thesis using Cons.IH[OF _ keep Cons.prems(3,4)] Inr by simp
  qed
qed

text \<open>
  C6. For an existing Like row and an existing Follow row, inserting a second row with
  the same composite key is refused with a uniqueness violation, and the commit that
  attempts it leaves the database as it was: when the duplicate is the only pending
  object the commit raises the uniqueness violation, and when it is pending among
  others the commit fails as a whole.
\<close>

theorem duplicate_key_refused:
  "(like \<in> set (likes (stored s)) \<and> Like_user_id l = Like_user_id like
      \<and> Like_message_id l = Like_message_id like \<longrightarrow>
        flush_one md now (LikeObj l) (stored s) = Inl UniqueViolation
      \<and> commit md now (s\<lparr>new := [LikeObj l]\<rparr>) = (Inl UniqueViolation, s\<lparr>new := []\<rparr>)
      \<and> (LikeObj l \<in> set (new s) \<longrightarrow>
            (\<exists>err. commit md now s = (Inl err, s\<lparr>new := []\<rparr>))))
   \<and> (row \<in> set (follows (stored s)) \<and> follower_id f = follower_id row
      \<and> followee_id f = followee_id row \<longrightarrow>
        flush_one md now (FollowObj f) (stored s) = Inl UniqueViolation
      \<and> commit md now (s\<lparr>new := [FollowObj f]\<rparr>) = (Inl UniqueViolation, s\<lparr>new := []\<rparr>)
      \<and> (FollowObj f \<in> set (new s) \<longrightarrow>
            (\<exists>err. commit md now s = (Inl err, s\<lparr>new := []\<rparr>))))"
proof -
  have likes: "flush_one md now (LikeObj l) (stored s) = Inl UniqueViolation
      \<and> commit md now (s\<lparr>new := [LikeObj l]\<rparr>) = (Inl UniqueViolation, s\<lparr>new := []\<rparr>)
      \<and> (LikeObj l \<in> set (new s) \<longrightarrow>
            (\<exists>err. commit md now s = (Inl err, s\<lparr>new := []\<rparr>)))"
    if h: "like \<in> set (likes (stored s))" "Like_user_id l = Like_user_id like"
      "Like_message_id l = Like_message_id like"
  proof -
    have one: "flush_one md now (LikeObj l) (stored s) = Inl UniqueViolation"
      by (rule flush_one_duplicate_like[OF h])
    have single: "commit md now (s\<lparr>new := [LikeObj l]\<rparr>) = (Inl UniqueViolation, s\<lparr>new := []\<rparr>)"
      by (simp add: commit_def one del: flush_one.simps)
    have many: "\<exists>err. commit md now s = (Inl err, s\<lparr>new := []\<rparr>)" if "LikeObj l \<in> set (new s)"
      using flush_fails_on_duplicate_like[OF that h, of md now] by (auto simp: commit_def)
    show ?thesis using one single many by blast
  qed
  have follows: "flush_one md now (FollowObj f) (stored s) = Inl UniqueViolation
      \<and> commit md now (s\<lparr>new := [FollowObj f]\<rparr>) = (Inl UniqueViolation, s\<lparr>new := []\<rparr>)
      \<and> (FollowObj f \<in> set (new s) \<longrightarrow>
            (\<exists>err. commit md now s = (Inl err, s\<lparr>new := []\<rparr>)))"
    if h: "row \<in> set (follows (stored s))" "follower_id f = follower_id row"
      "followee_id f = followee_id row"
  proof -
    have one: "flush_one md now (FollowObj f) (stored s) = Inl UniqueViolation"
      by (rule flush_one_duplicate_follow[OF h])
    have single: "commit md now (s\<lparr>new := [FollowObj f]\<rparr>) = (Inl UniqueViolation, s\<lparr>new := []\<rparr>)"
      by (simp add: commit_def one del: flush_one.simps)
    have many: "\<exists>err. commit md now s = (Inl err, s\<lparr>new := []\<rparr>)" if "FollowObj f \<in> set (new s)"
      using flush_fails_on_duplicate_follow[OF that h, of md now] by (auto simp: commit_def)
    show ?thesis using one single many by blast
  qed
  show ?thesis using likes follows by blast
qed

text \<open>
  The witness is \<open>retry_session\<close>: the new follow row alone would be accepted, each
  duplicate alone raises the violation, and the commit of all three fails.
\<close>

theorem duplicate_key_refused_witness:
  "\<lparr>Like_user_id = 2, Like_message_id = 1\<rparr> \<in> set (likes (stored retry_session))
   \<and> LikeObj \<lparr>Like_user_id = 2, Like_message_id = 1\<rparr> \<in> set (new retry_session)
   \<and> Follow 1 2 \<in> set (follows (stored retry_session))
   \<and> FollowObj (Follow 1 2) \<in> set (new retry_session)
   \<and> flush_one (import_models 100 101) 500
        (LikeObj \<lparr>Like_user_id = 2, Like_message_id = 1\<rparr>) (stored retry_session)
       = Inl UniqueViolation
   \<and> commit (import_models 100 101) 500
        (retry_session\<lparr>new := [LikeObj \<lparr>Like_user_id = 2, Like_message_id = 1\<rparr>]\<rparr>)
       = (Inl UniqueViolation, retry_session\<lparr>new := []\<rparr>)
   \<and> flush_one (import_models 100 101) 500 (FollowObj (Follow 1 2)) (stored retry_session)
       = Inl UniqueViolation
   \<and> commit (import_models 100 101) 500 (retry_session\<lparr>new := [FollowObj (Follow 1 2)]\<rparr>)
       = (Inl UniqueViolation, retry_session\<lparr>new := []\<rparr>)
   \<and> (\<exists>err. commit (import_models 100 101) 500 retry_session
          = (Inl err, retry_session\<lparr>new := []\<rparr>))
   \<and> flush_one (import_models 100 101) 500 (FollowObj (Follow 2 1)) liked_db
       = Inr (liked_db\<lparr>follows := [Follow 1 2, Follow 2 1]\<rparr>)"
proof -
  have l: "\<lparr>Like_user_id = 2, Like_message_id = 1\<rparr> \<in> set (likes (stored retry_session))"
    "LikeObj \<lparr>Like_user_id = 2, Like_message_id = 1\<rparr> \<in> set (new retry_session)"
    by (simp_all add: retry_session_def liked_db_def)
  have f: "Follow 1 2 \<in> set (follows (stored retry_session))"
    "FollowObj (Follow 1 2) \<in> set (new retry_session)"
    by (simp_all add: retry_session_def liked_db_def)
  have fresh: "flush_one (import_models 100 101) 500 (FollowObj (Follow 2 1)) liked_db
       = Inr (liked_db\<lparr>follows := [Follow 1 2, Follow 2 1]\<rparr>)"
    by (simp add: liked_db_def Follow_def user_exists_def alice_def bob_def)
  note t = duplicate_key_refused [of "\<lparr>Like_user_id = 2, Like_message_id = 1\<rparr>"
      retry_session "\<lparr>Like_user_id = 2, Like_message_id = 1\<rparr>" "import_models 100 101" 500
      "Follow 1 2" "Follow 1 2"]
  show ?thesis
    using l f fresh t by blast
qed

end
